theory Spec2Isabelle
  imports Main "HOL-Library.Sublist" "HOL-Library.AList"
begin

section \<open>dumb-rss: feed parsing and rendering (dumbrss.py)\<close>

text \<open>
  A Python \<open>str\<close> is modelled as a HOL \<open>string\<close> whose characters are the code points
  U+0000 to U+00FF; code points above U+00FF are not representable here.
  Python's \<open>None\<close> for an optional text is \<open>None :: string option\<close>.
\<close>

subsection \<open>Library operations on strings\<close>

text \<open>\<open>sub in s\<close> on strings: \<open>sub\<close> occurs as a contiguous substring of \<open>s\<close>.\<close>

fun contains :: "string \<Rightarrow> string \<Rightarrow> bool" where
  "contains sub [] = (sub = [])"
| "contains sub (c # cs) = (prefix sub (c # cs) \<or> contains sub cs)"

text \<open>\<open>sep.join(xs)\<close>.\<close>

fun join :: "string \<Rightarrow> string list \<Rightarrow> string" where
  "join sep [] = []"
| "join sep [x] = x"
| "join sep (x # y # ys) = x @ sep @ join sep (y # ys)"

text \<open>
  The line boundaries of \<open>str.splitlines\<close> among the code points up to U+00FF:
  LF, VT, FF, CR, FS, GS, RS and NEL.
\<close>

definition is_linebreak :: "char \<Rightarrow> bool" where
  "is_linebreak c \<longleftrightarrow>
     c \<in> {CHR 0x0A, CHR 0x0B, CHR 0x0C, CHR 0x0D, CHR 0x1C, CHR 0x1D, CHR 0x1E, CHR 0x85}"

text \<open>Skip one line terminator at the head of the rest; CR LF counts as one terminator.\<close>

fun skip_eol :: "string \<Rightarrow> string" where
  "skip_eol [] = []"
| "skip_eol [c] = []"
| "skip_eol (c # d # r) = (if c = CHR 0x0D \<and> d = CHR 0x0A then r else d # r)"

text \<open>
  \<open>s.splitlines()\<close> without \<open>keepends\<close>: the loop scans to the next line boundary, emits
  the line before it and continues behind the terminator. A terminator at the very end
  does not open a further, empty line.
\<close>

function splitlines :: "string \<Rightarrow> string list" where
  "splitlines s =
     (if s = [] then []
      else takeWhile (\<lambda>c. \<not> is_linebreak c) s
             # splitlines (skip_eol (dropWhile (\<lambda>c. \<not> is_linebreak c) s)))"
  by pat_completeness auto

subsection \<open>Article.parse_description\<close>

definition bad :: string where
  "bad = ''appeared first on''"

text \<open>The generator's condition \<open>ln and bad not in ln\<close>.\<close>

definition keep_line :: "string \<Rightarrow> bool" where
  "keep_line ln \<longleftrightarrow> ln \<noteq> [] \<and> \<not> contains bad ln"

definition parse_description :: "string \<Rightarrow> string" where
  "parse_description s = join [CHR 0x0A] (filter keep_line (splitlines s))"


subsection \<open>Exceptions\<close>

text \<open>
  Every raise of the program is a value. \<open>LibraryError\<close> is an exception raised inside
  a call to requests, defusedxml or tomllib.
\<close>

datatype error =
    RuntimeError string
  | ValueError
  | AttributeError
  | TypeError
  | IndexError
  | AssertionError
  | FileNotFoundError
  | LibraryError string

subsection \<open>Dates: datetime.strptime with "%d %b %Y" and strftime with "%x"\<close>

text \<open>
  \<open>strptime\<close> with this format leaves the time of day at midnight, and \<open>%x\<close> reads
  the calendar date only, so a \<open>datetime\<close> is modelled by its calendar date.
\<close>

record datetime =
  year :: nat
  month :: nat
  day :: nat

text \<open>\<open>s.split(" ")\<close>: split at every single space; empty pieces are kept.\<close>

fun split_space :: "string \<Rightarrow> string list" where
  "split_space [] = [[]]"
| "split_space (c # cs) =
     (if c = CHR '' '' then [] # split_space cs
      else (case split_space cs of [] \<Rightarrow> [[c]] | w # ws \<Rightarrow> (c # w) # ws))"

definition is_digit :: "char \<Rightarrow> bool" where
  "is_digit c \<longleftrightarrow> 48 \<le> (of_char c :: nat) \<and> (of_char c :: nat) \<le> 57"

definition is_digit19 :: "char \<Rightarrow> bool" where
  "is_digit19 c \<longleftrightarrow> 49 \<le> (of_char c :: nat) \<and> (of_char c :: nat) \<le> 57"

definition digit_val :: "char \<Rightarrow> nat" where
  "digit_val c = of_char c - 48"

text \<open>The class \<open>\s\<close> of a \<open>str\<close> pattern, among the code points up to U+00FF.\<close>

definition is_space :: "char \<Rightarrow> bool" where
  "is_space c \<longleftrightarrow>
     c \<in> {CHR 0x09, CHR 0x0A, CHR 0x0B, CHR 0x0C, CHR 0x0D, CHR 0x1C, CHR 0x1D, CHR 0x1E,
          CHR 0x1F, CHR 0x20, CHR 0x85, CHR 0xA0}"

text \<open>
  \<open>_strptime\<close> turns the format into the regular expression
  \<open>(?P<d>3[0-1]|[1-2]\d|0[1-9]|[1-9]| [1-9])\s+(?P<b>jan|...|dec)\s+(?P<Y>\d\d\d\d)\<close>,
  matched case-insensitively from the start of the text; the whole text must be consumed.
  Each piece below returns what it read and the rest of the text. The alternatives of the
  day are tried in the order of the pattern; a later alternative never succeeds where an
  earlier one matched and the rest failed, so the first match decides.
\<close>

fun re_day :: "string \<Rightarrow> (nat \<times> string) option" where
  "re_day (c # d # r) =
     (if c = CHR ''3'' \<and> (d = CHR ''0'' \<or> d = CHR ''1'') then Some (30 + digit_val d, r)
      else if (c = CHR ''1'' \<or> c = CHR ''2'') \<and> is_digit d
        then Some (10 * digit_val c + digit_val d, r)
      else if c = CHR ''0'' \<and> is_digit19 d then Some (digit_val d, r)
      else if is_digit19 c then Some (digit_val c, d # r)
      else if c = CHR '' '' \<and> is_digit19 d then Some (digit_val d, r)
      else None)"
| "re_day [c] = (if is_digit19 c then Some (digit_val c, []) else None)"
| "re_day [] = None"

definition re_spaces :: "string \<Rightarrow> string option" where
  "re_spaces s =
     (case s of [] \<Rightarrow> None
      | c # r \<Rightarrow> if is_space c then Some (dropWhile is_space r) else None)"

text \<open>The abbreviated month names of the C locale, which the program never changes.\<close>

definition a_month :: "string list" where
  "a_month = [''jan'', ''feb'', ''mar'', ''apr'', ''may'', ''jun'',
              ''jul'', ''aug'', ''sep'', ''oct'', ''nov'', ''dec'']"

definition lower :: "char \<Rightarrow> char" where
  "lower c = (if 65 \<le> (of_char c :: nat) \<and> (of_char c :: nat) \<le> 90
              then char_of ((of_char c :: nat) + 32) else c)"

fun index_of :: "string \<Rightarrow> string list \<Rightarrow> nat option" where
  "index_of x [] = None"
| "index_of x (y # ys) =
     (if x = y then Some 0 else (case index_of x ys of None \<Rightarrow> None | Some i \<Rightarrow> Some (Suc i)))"

definition re_month :: "string \<Rightarrow> (nat \<times> string) option" where
  "re_month s =
     (case index_of (map lower (take 3 s)) a_month of
        None \<Rightarrow> None
      | Some i \<Rightarrow> Some (Suc i, drop 3 s))"

fun re_year :: "string \<Rightarrow> (nat \<times> string) option" where
  "re_year (a # b # c # d # r) =
     (if is_digit a \<and> is_digit b \<and> is_digit c \<and> is_digit d
      then Some (1000 * digit_val a + 100 * digit_val b + 10 * digit_val c + digit_val d, r)
      else None)"
| "re_year _ = None"

definition is_leap :: "nat \<Rightarrow> bool" where
  "is_leap y \<longleftrightarrow> y mod 4 = 0 \<and> (y mod 100 \<noteq> 0 \<or> y mod 400 = 0)"

definition days_in_month :: "nat \<Rightarrow> nat \<Rightarrow> nat" where
  "days_in_month y m =
     (if m = 2 then (if is_leap y then 29 else 28)
      else if m = 4 \<or> m = 6 \<or> m = 9 \<or> m = 11 then 30 else 31)"

text \<open>
  \<open>datetime.strptime(s, "%d %b %Y")\<close>. No match, text left over, the year 0 and a day
  the month does not have each raise \<open>ValueError\<close>.
\<close>

definition strptime_dbY :: "string \<Rightarrow> error + datetime" where
  "strptime_dbY s =
     (case re_day s of None \<Rightarrow> Inl ValueError | Some (d, r1) \<Rightarrow>
     (case re_spaces r1 of None \<Rightarrow> Inl ValueError | Some r2 \<Rightarrow>
     (case re_month r2 of None \<Rightarrow> Inl ValueError | Some (m, r3) \<Rightarrow>
     (case re_spaces r3 of None \<Rightarrow> Inl ValueError | Some r4 \<Rightarrow>
     (case re_year r4 of None \<Rightarrow> Inl ValueError | Some (y, r5) \<Rightarrow>
        if r5 \<noteq> [] then Inl ValueError
        else if y < 1 \<or> days_in_month y m < d then Inl ValueError
        else Inr \<lparr>year = y, month = m, day = d\<rparr>)))))"

text \<open>\<open>Article.parse_dt\<close>: the slice \<open>[1:4]\<close> of the pieces, joined by one space.\<close>

definition parse_dt :: "string \<Rightarrow> error + datetime" where
  "parse_dt s = strptime_dbY (join '' '' (take 3 (drop 1 (split_space s))))"

definition two_digits :: "nat \<Rightarrow> string" where
  "two_digits n = [char_of (48 + (n div 10) mod 10), char_of (48 + n mod 10)]"

text \<open>
  \<open>datetime.strftime(d, "%x")\<close>. The program never calls \<open>setlocale\<close>, so the time
  locale is the C locale, whose date representation is \<open>%m/%d/%y\<close>.
\<close>

definition strftime_x :: "datetime \<Rightarrow> string" where
  "strftime_x d = two_digits (month d) @ ''/'' @ two_digits (day d) @ ''/'' @ two_digits (year d mod 100)"

subsection \<open>The templates\<close>

text \<open>\<open>ARTICLE_FMT.format(date=..., link=..., title=..., description=...)\<close>: the template with its replacement fields filled in.\<close>

definition ARTICLE_FMT :: "string \<Rightarrow> string \<Rightarrow> string \<Rightarrow> string \<Rightarrow> string" where
  \<open>ARTICLE_FMT date link title description =
     ''\<newline>'' @
     ''<li class="article">\<newline>'' @
     ''    '' @
     date @
     '' - <a href="'' @
     link @
     ''" target="new">'' @
     title @
     ''</a>\<newline>'' @
     ''    <br/>\<newline>'' @
     ''    <div class="article-description">'' @
     description @
     ''</div>\<newline>'' @
     ''</li>\<newline>''\<close>

text \<open>\<open>FEED_FMT.format(link=..., title=..., articles=...)\<close>: the template with its replacement fields filled in.\<close>

definition FEED_FMT :: "string \<Rightarrow> string \<Rightarrow> string \<Rightarrow> string" where
  \<open>FEED_FMT link title articles =
     ''\<newline>'' @
     ''<div class="feed">\<newline>'' @
     ''    <a href="'' @
     link @
     ''" target="new"><h2>'' @
     title @
     ''</h2></a>\<newline>'' @
     ''    <ul class="article-list">\<newline>'' @
     ''        '' @
     articles @
     ''\<newline>'' @
     ''    </ul>\<newline>'' @
     ''</div>\<newline>''\<close>

text \<open>\<open>CATEGORY_FMT.format(title=..., feeds=...)\<close>: the template with its replacement fields filled in.\<close>

definition CATEGORY_FMT :: "string \<Rightarrow> string \<Rightarrow> string" where
  \<open>CATEGORY_FMT title feeds =
     ''\<newline>'' @
     ''<div class="category">\<newline>'' @
     ''    <h1 class="category-title">'' @
     title @
     ''</h1>\<newline>'' @
     ''    '' @
     feeds @
     ''\<newline>'' @
     ''</div>\<newline>''\<close>

text \<open>\<open>HTML_FMT.format(body)\<close>: the template with its replacement fields filled in.\<close>

definition HTML_FMT :: "string \<Rightarrow> string" where
  \<open>HTML_FMT body =
     ''\<newline>'' @
     ''<!DOCTYPE html>\<newline>'' @
     ''<html lang="en">\<newline>'' @
     ''  <head>\<newline>'' @
     ''    <meta charset="UTF-8">\<newline>'' @
     ''    <meta name="viewport" content="width=device-width, initial-scale=1.0">\<newline>'' @
     ''    <title>RSS</title>\<newline>'' @
     ''    <link rel="stylesheet" href="./style.css">\<newline>'' @
     ''    <link rel="icon" href="./favicon.ico" type="image/x-icon">\<newline>'' @
     ''  </head>\<newline>'' @
     ''  <body>\<newline>'' @
     ''    <main>\<newline>'' @
     ''        '' @
     body @
     ''\<newline>'' @
     ''    </main>\<newline>'' @
     ''  </body>\<newline>'' @
     ''</html>\<newline>''\<close>

text \<open>What \<open>str.format\<close> puts in for a field whose value is a \<open>str\<close> or \<open>None\<close>.\<close>

definition str :: "string option \<Rightarrow> string" where
  "str v = (case v of None \<Rightarrow> ''None'' | Some s \<Rightarrow> s)"


subsection \<open>XML elements\<close>

text \<open>
  An \<open>xml.etree.ElementTree.Element\<close>: its tag, its text (\<open>el.text\<close>, \<open>None\<close> when
  there is none) and its child elements in document order.
\<close>

datatype Element = Element (tag: string) (el_text: "string option") (children: "Element list")

subsection \<open>Attributes every dataclass instance has\<close>

text \<open>
  \<open>hasattr(obj, name)\<close> is true for the fields and methods the class declares and for
  the attributes an instance gets from \<open>object\<close> and from the dataclass decorator. These
  are the ones of CPython 3.11, the first release with \<open>tomllib\<close>; \<open>hasattr\<close> is false
  for every other name.
\<close>

definition object_attrs :: "string list" where
  "object_attrs =
     [''__annotations__'', ''__class__'', ''__dataclass_fields__'', ''__dataclass_params__'',
      ''__delattr__'', ''__dict__'', ''__dir__'', ''__doc__'', ''__eq__'', ''__format__'',
      ''__ge__'', ''__getattribute__'', ''__getstate__'', ''__gt__'', ''__hash__'',
      ''__init__'', ''__init_subclass__'', ''__le__'', ''__lt__'', ''__match_args__'',
      ''__module__'', ''__ne__'', ''__new__'', ''__reduce__'', ''__reduce_ex__'',
      ''__repr__'', ''__setattr__'', ''__sizeof__'', ''__str__'', ''__subclasshook__'',
      ''__weakref__'']"

text \<open>
  \<open>setattr(obj, name, v)\<close> with a text or \<open>None\<close> for \<open>v\<close> raises \<open>TypeError\<close> for
  \<open>__class__\<close> and \<open>__dict__\<close> and \<open>AttributeError\<close> for \<open>__weakref__\<close>; for every
  other name it stores an attribute on the instance.
\<close>

definition setattr_raises :: "string \<Rightarrow> error option" where
  "setattr_raises name =
     (if name = ''__class__'' \<or> name = ''__dict__'' then Some TypeError
      else if name = ''__weakref__'' then Some AttributeError
      else None)"

text \<open>
  Of the stored attributes that hide one of the class, two change what the program does
  later: \<open>format\<close> (see the calls below) and \<open>__dataclass_fields__\<close>, which \<open>asdict\<close>
  reads from the instance and then fails on with \<open>AttributeError\<close>.
\<close>

definition hides_fields :: "(string \<times> string option) list \<Rightarrow> bool" where
  "hides_fields attrs \<longleftrightarrow> map_of attrs ''__dataclass_fields__'' \<noteq> None"

subsection \<open>class Article\<close>

text \<open>
  The field \<open>date\<close> is declared \<open>datetime | None\<close>, but \<open>setattr\<close> can store an
  element's text in it.
\<close>

datatype date_value = DateNone | DateTime datetime | DateStr string

text \<open>
  \<open>shadowed\<close> holds the instance attributes that \<open>setattr\<close> stored under the name of
  an attribute of the class that is not a field; they hide it on this instance.
\<close>

record Article =
  title :: "string option"
  link :: "string option"
  description :: "string option"
  date :: date_value
  shadowed :: "(string \<times> string option) list"

text \<open>\<open>cls()\<close>: the defaults of the dataclass.\<close>

definition Article_init :: Article where
  "Article_init =
     \<lparr>Article.title = Some [], Article.link = Some [], description = Some [],
      date = DateNone, Article.shadowed = []\<rparr>"

definition Article_hasattr :: "string \<Rightarrow> bool" where
  "Article_hasattr name \<longleftrightarrow>
     name \<in> set ([''title'', ''link'', ''description'', ''date'',
                  ''parse_dt'', ''parse_description'', ''parse'', ''format''] @ object_attrs)"

definition Article_setattr :: "Article \<Rightarrow> string \<Rightarrow> string option \<Rightarrow> Article" where
  "Article_setattr article name v =
     (if name = ''title'' then article\<lparr>Article.title := v\<rparr>
      else if name = ''link'' then article\<lparr>Article.link := v\<rparr>
      else if name = ''description'' then article\<lparr>description := v\<rparr>
      else if name = ''date''
        then article\<lparr>date := (case v of None \<Rightarrow> DateNone | Some s \<Rightarrow> DateStr s)\<rparr>
      else article\<lparr>Article.shadowed := AList.update name v (Article.shadowed article)\<rparr>)"

text \<open>One pass of the loop body of \<open>Article.parse\<close>: the \<open>match el.tag\<close> statement.\<close>

definition Article_case :: "Article \<Rightarrow> Element \<Rightarrow> error + Article" where
  "Article_case article el =
     (if tag el = ''pubDate'' then
        (case el_text el of
           None \<Rightarrow> Inr (article\<lparr>date := DateNone\<rparr>)
         | Some s \<Rightarrow>
             if s = [] then Inr (article\<lparr>date := DateNone\<rparr>)
             else (case parse_dt s of
                     Inl e \<Rightarrow> Inl e
                   | Inr d \<Rightarrow> Inr (article\<lparr>date := DateTime d\<rparr>)))
      else if tag el = ''description'' then
        (case el_text el of
           None \<Rightarrow> Inr (article\<lparr>description := None\<rparr>)
         | Some s \<Rightarrow>
             if s = [] then Inr (article\<lparr>description := None\<rparr>)
             else Inr (article\<lparr>description := Some (parse_description s)\<rparr>))
      else if Article_hasattr (tag el) then
        (case setattr_raises (tag el) of
           Some e \<Rightarrow> Inl e
         | None \<Rightarrow> Inr (Article_setattr article (tag el) (el_text el)))
      else Inr article)"

fun Article_loop :: "Article \<Rightarrow> Element list \<Rightarrow> error + Article" where
  "Article_loop article [] = Inr article"
| "Article_loop article (el # els) =
     (case Article_case article el of
        Inl e \<Rightarrow> Inl e
      | Inr article' \<Rightarrow> Article_loop article' els)"

definition Article_parse :: "Element \<Rightarrow> error + Article" where
  "Article_parse item = Article_loop Article_init (children item)"

text \<open>
  \<open>Article.format\<close>. \<open>asdict(self)\<close> comes first. \<open>if self.date\<close> is true for every
  \<open>datetime\<close> and for a non-empty text; \<open>datetime.strftime\<close> on a text raises
  \<open>TypeError\<close>. A date left at \<open>None\<close> is put into the template as it is.
\<close>

definition Article_format :: "Article \<Rightarrow> error + string" where
  "Article_format self =
     (if hides_fields (Article.shadowed self) then Inl AttributeError
      else (case date self of
              DateNone \<Rightarrow>
                Inr (ARTICLE_FMT ''None'' (str (Article.link self)) (str (Article.title self))
                       (str (description self)))
            | DateTime d \<Rightarrow>
                Inr (ARTICLE_FMT (strftime_x d) (str (Article.link self))
                       (str (Article.title self)) (str (description self)))
            | DateStr s \<Rightarrow>
                if s = []
                then Inr (ARTICLE_FMT [] (str (Article.link self)) (str (Article.title self))
                            (str (description self)))
                else Inl TypeError))"

text \<open>
  The call \<open>a.format()\<close>: an instance attribute named \<open>format\<close> hides the method, and
  calling a text or \<open>None\<close> raises \<open>TypeError\<close>.
\<close>

definition Article_call_format :: "Article \<Rightarrow> error + string" where
  "Article_call_format a =
     (if map_of (Article.shadowed a) ''format'' \<noteq> None then Inl TypeError
      else Article_format a)"

subsection \<open>class Feed\<close>

text \<open>
  The field \<open>articles\<close> is declared a list of articles, but \<open>setattr\<close> can store an
  element's text in it.
\<close>

datatype articles_value = ArticleList "Article list" | ArticlesText "string option"

record Feed =
  title :: "string option"
  link :: "string option"
  articles :: articles_value
  shadowed :: "(string \<times> string option) list"

definition Feed_init :: Feed where
  "Feed_init =
     \<lparr>Feed.title = Some [], Feed.link = Some [], articles = ArticleList [],
      Feed.shadowed = []\<rparr>"

definition Feed_hasattr :: "string \<Rightarrow> bool" where
  "Feed_hasattr name \<longleftrightarrow>
     name \<in> set ([''title'', ''link'', ''articles'', ''parse'', ''format''] @ object_attrs)"

definition Feed_setattr :: "Feed \<Rightarrow> string \<Rightarrow> string option \<Rightarrow> Feed" where
  "Feed_setattr feed name v =
     (if name = ''title'' then feed\<lparr>Feed.title := v\<rparr>
      else if name = ''link'' then feed\<lparr>Feed.link := v\<rparr>
      else if name = ''articles'' then feed\<lparr>articles := ArticlesText v\<rparr>
      else feed\<lparr>Feed.shadowed := AList.update name v (Feed.shadowed feed)\<rparr>)"

text \<open>
  One pass of the loop body of \<open>Feed.parse\<close>. In \<open>feed.articles.append(Article.parse(el))\<close>
  the attribute \<open>append\<close> is looked up before the argument is evaluated.
\<close>

definition Feed_case :: "Feed \<Rightarrow> Element \<Rightarrow> error + Feed" where
  "Feed_case feed el =
     (if tag el = ''item'' then
        (case articles feed of
           ArticlesText v \<Rightarrow> Inl AttributeError
         | ArticleList as \<Rightarrow>
             (case Article_parse el of
                Inl e \<Rightarrow> Inl e
              | Inr a \<Rightarrow> Inr (feed\<lparr>articles := ArticleList (as @ [a])\<rparr>)))
      else if Feed_hasattr (tag el) then
        (case setattr_raises (tag el) of
           Some e \<Rightarrow> Inl e
         | None \<Rightarrow> Inr (Feed_setattr feed (tag el) (el_text el)))
      else Inr feed)"

fun Feed_loop :: "Feed \<Rightarrow> Element list \<Rightarrow> error + Feed" where
  "Feed_loop feed [] = Inr feed"
| "Feed_loop feed (el # els) =
     (case Feed_case feed el of
        Inl e \<Rightarrow> Inl e
      | Inr feed' \<Rightarrow> Feed_loop feed' els)"

subsection \<open>The outside world\<close>

text \<open>
  A \<open>requests.Response\<close> with its fields \<open>status_code\<close> and \<open>text\<close>. Its property
  \<open>ok\<close> belongs to the requests library: it is false exactly when \<open>raise_for_status\<close>
  would raise, that is for a status code from 400 to 599 ("this is not a check to see if
  the response code is 200 OK", as its documentation says). \<open>requests.get\<close> follows a
  redirect only when the answer names a location, so any status can be the final one.
\<close>

record response =
  status_code :: nat
  resp_text :: string

definition ok :: "response \<Rightarrow> bool" where
  "ok resp \<longleftrightarrow> \<not> (400 \<le> status_code resp \<and> status_code resp < 600)"

type_synonym path = "string list"

text \<open>
  What the program reads from outside: the answer to \<open>requests.get\<close> for each URL, the
  XML parser \<open>defusedxml.ElementTree.fromstring\<close>, the table that \<open>tomllib.load\<close> reads
  from the configuration file (category names in file order, each with its list of URLs)
  and the directory of the script. A library call that raises returns \<open>Inl\<close>. The
  answer to a GET is taken to depend on the URL only.
\<close>

record env =
  requests_get :: "string \<Rightarrow> error + response"
  fromstring :: "string \<Rightarrow> error + Element"
  tomllib_load :: "path \<Rightarrow> error + (string \<times> string list) list"
  CODE_DIR :: path

text \<open>What the program can change: the files, and the lines printed.\<close>

record world =
  files :: "path \<rightharpoonup> string"
  dirs :: "path set"
  stdout :: "string list"

text \<open>The parsed command line: \<open>args.config\<close> and \<open>args.output\<close>.\<close>

record args =
  config :: path
  output_dir :: path

text \<open>\<open>Feed.parse\<close>.\<close>

definition Feed_parse :: "env \<Rightarrow> string \<Rightarrow> world \<Rightarrow> (error + Feed) \<times> world" where
  "Feed_parse env url w =
     (case requests_get env url of
        Inl e \<Rightarrow> (Inl e, w)
      | Inr resp \<Rightarrow>
          if \<not> ok resp then (Inl (RuntimeError (''Failed to fetch: '' @ url)), w)
          else (case fromstring env (resp_text resp) of
                  Inl e \<Rightarrow> (Inl e, w)
                | Inr data \<Rightarrow>
                    (case children data of
                       [] \<Rightarrow> (Inl IndexError, w)
                     | channel # rest \<Rightarrow>
                         (case Feed_loop Feed_init (children channel) of
                            Inl e \<Rightarrow> (Inl e, w)
                          | Inr feed \<Rightarrow>
                              (Inr feed,
                               w\<lparr>stdout := stdout w @ [''Fetched '' @ str (Feed.title feed)]\<rparr>)))))"

text \<open>The generator \<open>a.format() for a in self.articles\<close>, consumed by \<open>join\<close>.\<close>

fun format_articles :: "Article list \<Rightarrow> error + string list" where
  "format_articles [] = Inr []"
| "format_articles (a # as) =
     (case Article_call_format a of
        Inl e \<Rightarrow> Inl e
      | Inr s \<Rightarrow> (case format_articles as of Inl e \<Rightarrow> Inl e | Inr ss \<Rightarrow> Inr (s # ss)))"

text \<open>
  \<open>Feed.format\<close>. \<open>asdict(self)\<close> comes first and walks into the articles of the list.
  Where \<open>articles\<close> holds a text, the generator runs over its characters and calls
  \<open>str.format\<close> on each, which raises \<open>ValueError\<close> on a brace; where it holds \<open>None\<close>,
  iterating raises \<open>TypeError\<close>.
\<close>

definition Feed_format :: "Feed \<Rightarrow> error + string" where
  "Feed_format self =
     (if hides_fields (Feed.shadowed self)
         \<or> (case articles self of
               ArticleList as \<Rightarrow> list_ex (\<lambda>a. hides_fields (Article.shadowed a)) as
             | ArticlesText v \<Rightarrow> False)
      then Inl AttributeError
      else (case articles self of
              ArticleList as \<Rightarrow>
                (case format_articles as of
                   Inl e \<Rightarrow> Inl e
                 | Inr ss \<Rightarrow>
                     Inr (FEED_FMT (str (Feed.link self)) (str (Feed.title self))
                            (join ''<br/>'' ss)))
            | ArticlesText None \<Rightarrow> Inl TypeError
            | ArticlesText (Some s) \<Rightarrow>
                if CHR ''{'' \<in> set s \<or> CHR ''}'' \<in> set s then Inl ValueError
                else Inr (FEED_FMT (str (Feed.link self)) (str (Feed.title self))
                            (join ''<br/>'' (map (\<lambda>c. [c]) s)))))"

definition Feed_call_format :: "Feed \<Rightarrow> error + string" where
  "Feed_call_format feed =
     (if map_of (Feed.shadowed feed) ''format'' \<noteq> None then Inl TypeError
      else Feed_format feed)"

subsection \<open>main\<close>

text \<open>The inner loop of \<open>main\<close>: \<open>feeds.append(Feed.parse(url).format())\<close> for each URL.\<close>

fun feeds_loop :: "env \<Rightarrow> string list \<Rightarrow> string list \<Rightarrow> world \<Rightarrow> (error + string list) \<times> world" where
  "feeds_loop env [] feeds w = (Inr feeds, w)"
| "feeds_loop env (url # urls) feeds w =
     (case Feed_parse env url w of
        (Inl e, w') \<Rightarrow> (Inl e, w')
      | (Inr feed, w') \<Rightarrow>
          (case Feed_call_format feed of
             Inl e \<Rightarrow> (Inl e, w')
           | Inr s \<Rightarrow> feeds_loop env urls (feeds @ [s]) w'))"

text \<open>The outer loop of \<open>main\<close> over the items of the configuration table.\<close>

fun categories_loop ::
  "env \<Rightarrow> (string \<times> string list) list \<Rightarrow> string list \<Rightarrow> world \<Rightarrow> (error + string list) \<times> world" where
  "categories_loop env [] categories w = (Inr categories, w)"
| "categories_loop env ((category, urls) # rest) categories w =
     (case feeds_loop env urls [] w of
        (Inl e, w') \<Rightarrow> (Inl e, w')
      | (Inr feeds, w') \<Rightarrow>
          categories_loop env rest
            (categories @ [CATEGORY_FMT category (join [CHR 0x0A] feeds)]) w')"

text \<open>
  \<open>main\<close> returns the exception that ended the run, if any, and the world it leaves.
  \<open>write_text\<close> stores the document under \<open>output / "index.html"\<close>; \<open>shutil.copy\<close>
  raises when the stylesheet is missing beside the script.
\<close>

definition main :: "env \<Rightarrow> args \<Rightarrow> world \<Rightarrow> error option \<times> world" where
  "main env a w =
     (if output_dir a \<notin> dirs w then (Some AssertionError, w)
      else (case tomllib_load env (config a) of
              Inl e \<Rightarrow> (Some e, w)
            | Inr table \<Rightarrow>
                (case categories_loop env table [] w of
                   (Inl e, w1) \<Rightarrow> (Some e, w1)
                 | (Inr categories, w1) \<Rightarrow>
                     (let w2 = w1\<lparr>files := (files w1)(output_dir a @ [''index.html'']
                                   \<mapsto> HTML_FMT (join [CHR 0x0A] categories))\<rparr>
                      in if output_dir a \<noteq> CODE_DIR env
                         then (case files w2 (CODE_DIR env @ [''style.css'']) of
                                 None \<Rightarrow> (Some FileNotFoundError, w2)
                               | Some css \<Rightarrow>
                                   (None, w2\<lparr>files := (files w2)(output_dir a @ [''style.css''] \<mapsto> css)\<rparr>))
                         else (None, w2)))))"


subsection \<open>Feed documents\<close>

text \<open>The \<open>item\<close> children of a channel, in document order.\<close>

definition items :: "Element \<Rightarrow> Element list" where
  "items channel = filter (\<lambda>el. tag el = ''item'') (children channel)"

text \<open>
  An item that \<open>Article.parse\<close> accepts: the text of every \<open>pubDate\<close> child is absent,
  empty or a date that \<open>parse_dt\<close> reads, and no child's tag is a name that \<open>setattr\<close>
  refuses.
\<close>

definition valid_item :: "Element \<Rightarrow> bool" where
  "valid_item item \<longleftrightarrow>
     (\<forall>el\<in>set (children item).
        setattr_raises (tag el) = None \<and>
        (tag el = ''pubDate'' \<longrightarrow>
           (case el_text el of None \<Rightarrow> True | Some s \<Rightarrow> s = [] \<or> \<not> isl (parse_dt s))))"

text \<open>
  A channel whose items are valid and whose other children are tagged neither
  \<open>articles\<close> nor with a name that \<open>setattr\<close> refuses.
\<close>

definition valid_channel :: "Element \<Rightarrow> bool" where
  "valid_channel channel \<longleftrightarrow>
     (\<forall>el\<in>set (children channel).
        if tag el = ''item'' then valid_item el
        else setattr_raises (tag el) = None \<and> tag el \<noteq> ''articles'')"

text \<open>What \<open>case "description"\<close> assigns for an element's text.\<close>

definition cleaned :: "string option \<Rightarrow> string option" where
  "cleaned t =
     (case t of None \<Rightarrow> None | Some s \<Rightarrow> if s = [] then None else Some (parse_description s))"

subsection \<open>The nesting of the final document\<close>

text \<open>
  The renderer as the specification words it: every level is the template around the
  fragments of the level below, taken in order. The results of a list are collected in
  the order of the list; the first exception, if any, is the result.
\<close>

fun collect :: "(error + 'a) list \<Rightarrow> error + 'a list" where
  "collect [] = Inr []"
| "collect (r # rs) =
     (case r of
        Inl e \<Rightarrow> Inl e
      | Inr x \<Rightarrow> (case collect rs of Inl e \<Rightarrow> Inl e | Inr xs \<Rightarrow> Inr (x # xs)))"

text \<open>The fragment of one item: the parsed article, formatted.\<close>

definition spec_article_fragment :: "Element \<Rightarrow> error + string" where
  "spec_article_fragment item =
     (case Article_parse item of Inl e \<Rightarrow> Inl e | Inr a \<Rightarrow> Article_call_format a)"

text \<open>
  The fragment of one URL: the feed template, with the title and link that the walk over
  the channel found, around the fragments of the channel's items in document order,
  joined by \<open><br/>\<close>.
\<close>

definition spec_feed_fragment :: "env \<Rightarrow> string \<Rightarrow> error + string" where
  "spec_feed_fragment env url =
     (case requests_get env url of
        Inl e \<Rightarrow> Inl e
      | Inr resp \<Rightarrow>
          (case fromstring env (resp_text resp) of
             Inl e \<Rightarrow> Inl e
           | Inr data \<Rightarrow>
               (case children data of
                  [] \<Rightarrow> Inl IndexError
                | channel # rest \<Rightarrow>
                    (case Feed_loop Feed_init (children channel) of
                       Inl e \<Rightarrow> Inl e
                     | Inr feed \<Rightarrow>
                         (case collect (map spec_article_fragment (items channel)) of
                            Inl e \<Rightarrow> Inl e
                          | Inr frs \<Rightarrow>
                              Inr (FEED_FMT (str (Feed.link feed)) (str (Feed.title feed))
                                     (join ''<br/>'' frs)))))))"

text \<open>
  The fragment of one category: the category template around the fragments of its URLs
  in the order of the URL list, joined by newlines.
\<close>

definition spec_category_fragment :: "env \<Rightarrow> string \<times> string list \<Rightarrow> error + string" where
  "spec_category_fragment env entry =
     (case collect (map (spec_feed_fragment env) (snd entry)) of
        Inl e \<Rightarrow> Inl e
      | Inr fbs \<Rightarrow> Inr (CATEGORY_FMT (fst entry) (join [CHR 0x0A] fbs)))"

text \<open>
  The document: the page template around the fragments of the categories in the order
  of the configuration, joined by newlines.
\<close>

definition spec_document :: "env \<Rightarrow> (string \<times> string list) list \<Rightarrow> error + string" where
  "spec_document env table =
     (case collect (map (spec_category_fragment env) table) of
        Inl e \<Rightarrow> Inl e
      | Inr cbs \<Rightarrow> Inr (HTML_FMT (join [CHR 0x0A] cbs)))"

text \<open>The channel fetched from a URL, if there is one, has no child tagged \<open>articles\<close>.\<close>

definition no_articles_tag :: "env \<Rightarrow> string \<Rightarrow> bool" where
  "no_articles_tag env url \<longleftrightarrow>
     (case requests_get env url of
        Inl e \<Rightarrow> True
      | Inr resp \<Rightarrow>
          (case fromstring env (resp_text resp) of
             Inl e \<Rightarrow> True
           | Inr data \<Rightarrow>
               (case children data of
                  [] \<Rightarrow> True
                | channel # rest \<Rightarrow> \<forall>el\<in>set (children channel). tag el \<noteq> ''articles'')))"

text \<open>The same for every URL of the configuration.\<close>

definition articles_untouched :: "env \<Rightarrow> (string \<times> string list) list \<Rightarrow> bool" where
  "articles_untouched env table \<longleftrightarrow>
     (\<forall>url\<in>set (concat (map snd table)). no_articles_tag env url)"

subsection \<open>Example inputs\<close>

text \<open>The feed of the end-to-end scenario: one channel with a title, a link and one item.\<close>

definition example_item :: Element where
  "example_item =
     Element ''item'' None
       [Element ''title'' (Some ''Hello'') [],
        Element ''link'' (Some ''http://x/1'') [],
        Element ''pubDate'' (Some ''Mon, 01 Jan 2024 00:00:00 GMT'') [],
        Element ''description''
          (Some ''Hello world\<newline>The post Hello appeared first on Example.'') []]"

definition example_channel :: Element where
  "example_channel =
     Element ''channel'' None
       [Element ''title'' (Some ''Example Feed'') [],
        Element ''link'' (Some ''http://x/'') [],
        Element ''language'' (Some ''en'') [],
        example_item]"

definition example_rss :: Element where
  "example_rss = Element ''rss'' None [example_channel]"

text \<open>The same channel with one more child, tagged \<open>articles\<close>, behind the item.\<close>

definition articles_channel :: Element where
  "articles_channel =
     Element ''channel'' None
       [Element ''title'' (Some ''Example Feed'') [],
        Element ''link'' (Some ''http://x/'') [],
        example_item,
        Element ''articles'' (Some ''xy'') []]"

definition articles_rss :: Element where
  "articles_rss = Element ''rss'' None [articles_channel]"

text \<open>An item whose date is written in another format.\<close>

definition bad_date_item :: Element where
  "bad_date_item =
     Element ''item'' None
       [Element ''title'' (Some ''Hello'') [],
        Element ''pubDate'' (Some ''2024-01-01T00:00:00Z'') []]"

definition bad_date_rss :: Element where
  "bad_date_rss = Element ''rss'' None [Element ''channel'' None [bad_date_item]]"

text \<open>
  An environment that answers every URL with the given status and parses every body to
  the given document; the configuration has the one category \<open>Tech\<close> with one URL.
\<close>

definition example_env :: "nat \<Rightarrow> Element \<Rightarrow> env" where
  "example_env status doc =
     \<lparr>requests_get = (\<lambda>url. Inr \<lparr>status_code = status, resp_text = ''<rss/>''\<rparr>),
      fromstring = (\<lambda>body. Inr doc),
      tomllib_load = (\<lambda>p. Inr [(''Tech'', [''http://x/feed''])]),
      CODE_DIR = [''code'']\<rparr>"

definition example_args :: args where
  "example_args = \<lparr>config = [''config.toml''], output_dir = [''out'']\<rparr>"

definition example_world :: world where
  "example_world =
     \<lparr>files = [[''code'', ''style.css''] \<mapsto> ''body {}''], dirs = {[''out'']}, stdout = []\<rparr>"

section \<open>Termination\<close>

lemma length_skip_eol: "r \<noteq> [] \<Longrightarrow> length (skip_eol r) < length r"
  by (induction r rule: skip_eol.induct) auto

lemma length_skip_eol_dropWhile:
  "s \<noteq> [] \<Longrightarrow> length (skip_eol (dropWhile P s)) < length s"
proof (cases "dropWhile P s = []")
  case True
  assume "s \<noteq> []"
  then have "0 < length s" by simp
  moreover have "skip_eol (dropWhile P s) = []"
    unfolding True by simp
  ultimately show ?thesis by (simp only: list.size)
next
  case False
  then have "length (skip_eol (dropWhile P s)) < length (dropWhile P s)"
    by (rule length_skip_eol)
  also have "\<dots> \<le> length s"
    by (rule length_dropWhile_le)
  finally show ?thesis .
qed

termination splitlines
  by (relation "measure length") (simp_all add: length_skip_eol_dropWhile)

declare splitlines.simps [simp del]


section \<open>Description cleaning\<close>

lemma splitlines_Nil: "splitlines [] = []"
  by (simp add: splitlines.simps)

text \<open>No line that \<open>splitlines\<close> returns holds a line boundary.\<close>

lemma splitlines_no_linebreak:
  "l \<in> set (splitlines s) \<Longrightarrow> \<forall>c\<in>set l. \<not> is_linebreak c"
proof (induction s rule: splitlines.induct)
  case (1 s)
  show ?case
  proof (cases "s = []")
    case True
    with "1.prems" show ?thesis by (simp add: splitlines_Nil)
  next
    case False
    from "1.prems" False
    have "l = takeWhile (\<lambda>c. \<not> is_linebreak c) s
          \<or> l \<in> set (splitlines (skip_eol (dropWhile (\<lambda>c. \<not> is_linebreak c) s)))"
      by (subst (asm) splitlines.simps) simp
    then show ?thesis
    proof
      assume "l = takeWhile (\<lambda>c. \<not> is_linebreak c) s"
      then show ?thesis by (auto dest: set_takeWhileD)
    next
      assume "l \<in> set (splitlines (skip_eol (dropWhile (\<lambda>c. \<not> is_linebreak c) s)))"
      with "1.IH" False show ?thesis by blast
    qed
  qed
qed

lemma splitlines_plain:
  assumes "x \<noteq> []" and "\<forall>c\<in>set x. \<not> is_linebreak c"
  shows "splitlines x = [x]"
proof -
  from assms(2) have tw: "takeWhile (\<lambda>c. \<not> is_linebreak c) x = x"
    and dw: "dropWhile (\<lambda>c. \<not> is_linebreak c) x = []"
    by simp_all
  from assms(1) show ?thesis
    by (subst splitlines.simps) (simp add: tw dw splitlines_Nil)
qed

lemma splitlines_line_LF:
  assumes "\<forall>c\<in>set x. \<not> is_linebreak c"
  shows "splitlines (x @ CHR 0x0A # r) = x # splitlines r"
proof -
  have lb: "is_linebreak (CHR 0x0A)" by (simp add: is_linebreak_def)
  from assms lb have "takeWhile (\<lambda>c. \<not> is_linebreak c) (x @ CHR 0x0A # r) = x"
    by simp
  moreover from assms lb
  have "dropWhile (\<lambda>c. \<not> is_linebreak c) (x @ CHR 0x0A # r) = CHR 0x0A # r"
    by simp
  moreover have "skip_eol (CHR 0x0A # r) = r"
    by (cases r) simp_all
  ultimately show ?thesis
    by (subst splitlines.simps) simp
qed

text \<open>Joining non-empty, boundary-free lines with LF and splitting again gives them back.\<close>

lemma splitlines_join:
  "\<forall>l\<in>set ls. l \<noteq> [] \<and> (\<forall>c\<in>set l. \<not> is_linebreak c) \<Longrightarrow>
   splitlines (join [CHR 0x0A] ls) = ls"
proof (induction "[CHR 0x0A]" ls rule: join.induct)
  case 1
  show ?case by (simp add: splitlines_Nil)
next
  case (2 x)
  then show ?case by (simp add: splitlines_plain)
next
  case (3 x y ys)
  then show ?case by (simp add: splitlines_line_LF)
qed

lemma splitlines_cleaned:
  "splitlines (join [CHR 0x0A] (filter keep_line (splitlines s))) = filter keep_line (splitlines s)"
  by (rule splitlines_join) (auto simp: keep_line_def dest: splitlines_no_linebreak)

text \<open>
  C3. Description cleaning is idempotent: for every text \<open>s\<close>, cleaning the cleaned text
  again returns it unchanged.
\<close>

theorem parse_description_idempotent:
  "parse_description (parse_description s) = parse_description s"
proof -
  have "parse_description (parse_description s)
      = join [CHR 0x0A] (filter keep_line (filter keep_line (splitlines s)))"
    by (simp only: parse_description_def splitlines_cleaned)
  also have "\<dots> = parse_description s"
    by (simp add: parse_description_def)
  finally show ?thesis .
qed

text \<open>
  C4, as stated, fails: the text with the three lines \<open>a\<close>, the empty line and \<open>b\<close> has no
  line with the marker, yet the empty line is gone from the output.
\<close>

theorem parse_description_drops_empty_line:
  "splitlines ''a\<newline>\<newline>b'' = [''a'', [], ''b'']
   \<and> \<not> contains bad []
   \<and> parse_description ''a\<newline>\<newline>b'' = ''a\<newline>b''
   \<and> splitlines (parse_description ''a\<newline>\<newline>b'') = [''a'', ''b'']"
  by code_simp

text \<open>
  C4, amended. For every text, the lines of the cleaned text are exactly the lines of the
  input that are non-empty and do not contain the marker \<open>appeared first on\<close>, each
  verbatim and in their original order: every line with the marker and every empty line
  is removed, and nothing else.
\<close>

theorem parse_description_lines:
  "splitlines (parse_description s) = filter keep_line (splitlines s)"
  unfolding parse_description_def by (rule splitlines_cleaned)


section \<open>Dates\<close>

text \<open>
  C5. The pubDate text \<open>Wed, 04 Oct 2023 10:00:00 GMT\<close> parses to the calendar date
  2023-10-04, the \<open>pubDate\<close> case stores that date in the article, and formatting it
  gives the short date of the C locale, \<open>10/04/23\<close>, which \<open>Article.format\<close> puts into
  the fragment.
\<close>

theorem date_round_trip:
  \<open>parse_dt ''Wed, 04 Oct 2023 10:00:00 GMT'' = Inr \<lparr>year = 2023, month = 10, day = 4\<rparr>
   \<and> strftime_x \<lparr>year = 2023, month = 10, day = 4\<rparr> = ''10/04/23''
   \<and> Article_case Article_init (Element ''pubDate'' (Some ''Wed, 04 Oct 2023 10:00:00 GMT'') [])
       = Inr (Article_init\<lparr>date := DateTime \<lparr>year = 2023, month = 10, day = 4\<rparr>\<rparr>)
   \<and> Article_format (Article_init\<lparr>date := DateTime \<lparr>year = 2023, month = 10, day = 4\<rparr>\<rparr>)
       = Inr (ARTICLE_FMT ''10/04/23'' [] [] [])\<close>
  by code_simp

section \<open>Article.format\<close>

text \<open>
  C7, as stated, fails for the unset date: the article fresh from the constructor has no
  date, and its fragment shows the text \<open>None\<close> followed by \<open> - \<close> before the link.
\<close>

theorem Article_format_unset_date:
  \<open>date Article_init = DateNone
   \<and> Article_format Article_init =
       Inr ''\<newline><li class="article">\<newline>    None - <a href="" target="new"></a>\<newline>    <br/>\<newline>    <div class="article-description"></div>\<newline></li>\<newline>''\<close>
  by code_simp

text \<open>
  C7, amended. For every article whose attributes are the declared ones (nothing hides
  \<open>__dataclass_fields__\<close>): when the date field holds a date, the fragment that
  \<open>Article.format\<close> returns opens the list item with the short date of the locale,
  month, day and two-digit year separated by slashes, followed by \<open> - \<close> and then the
  link; when the date field is unset, the text \<open>None\<close> stands in that place, followed by
  \<open> - \<close> and the link. Title and description follow in both cases.
\<close>

theorem Article_format_date:
  \<open>\<not> hides_fields (Article.shadowed a) \<Longrightarrow>
   (date a = DateTime d \<longrightarrow>
      Article_format a =
        Inr (''\<newline><li class="article">\<newline>    ''
             @ two_digits (month d) @ ''/'' @ two_digits (day d) @ ''/''
             @ two_digits (year d mod 100)
             @ '' - <a href="'' @ str (Article.link a) @ ''" target="new">''
             @ str (Article.title a)
             @ ''</a>\<newline>    <br/>\<newline>    <div class="article-description">''
             @ str (description a) @ ''</div>\<newline></li>\<newline>''))
   \<and> (date a = DateNone \<longrightarrow>
      Article_format a =
        Inr (''\<newline><li class="article">\<newline>    ''
             @ ''None''
             @ '' - <a href="'' @ str (Article.link a) @ ''" target="new">''
             @ str (Article.title a)
             @ ''</a>\<newline>    <br/>\<newline>    <div class="article-description">''
             @ str (description a) @ ''</div>\<newline></li>\<newline>''))\<close>
  by (simp add: Article_format_def ARTICLE_FMT_def strftime_x_def)

theorem Article_format_date_witness:
  \<open>Article_format
     \<lparr>Article.title = Some ''Hello'', link = Some ''http://x/1'',
      description = Some ''Hello world'',
      date = DateTime \<lparr>year = 2023, month = 10, day = 4\<rparr>, shadowed = []\<rparr>
     = Inr ''\<newline><li class="article">\<newline>    10/04/23 - <a href="http://x/1" target="new">Hello</a>\<newline>    <br/>\<newline>    <div class="article-description">Hello world</div>\<newline></li>\<newline>''
   \<and> Article_format
       \<lparr>Article.title = Some ''Hello'', link = Some ''http://x/1'',
        description = None, date = DateNone, shadowed = []\<rparr>
     = Inr ''\<newline><li class="article">\<newline>    None - <a href="http://x/1" target="new">Hello</a>\<newline>    <br/>\<newline>    <div class="article-description">None</div>\<newline></li>\<newline>''\<close>
proof -
  have m: "two_digits 10 = ''10''" and d: "two_digits 4 = ''04''"
    and y: "two_digits 23 = ''23''"
    by code_simp+
  have 1: "\<not> hides_fields (Article.shadowed
             \<lparr>Article.title = Some ''Hello'', link = Some ''http://x/1'',
              description = Some ''Hello world'',
              date = DateTime \<lparr>year = 2023, month = 10, day = 4\<rparr>, shadowed = []\<rparr>)"
    and 2: "\<not> hides_fields (Article.shadowed
             \<lparr>Article.title = Some ''Hello'', link = Some ''http://x/1'',
              description = None, date = DateNone, shadowed = []\<rparr>)"
    by (simp_all add: hides_fields_def)
  show ?thesis
    using Article_format_date [OF 1, of "\<lparr>year = 2023, month = 10, day = 4\<rparr>"]
          Article_format_date [OF 2]
    by (simp add: m d y str_def)
qed

section \<open>The description field\<close>

lemma Article_case_description:
  assumes "Article_case a el = Inr a'"
  shows "description a' = (if tag el = ''description'' then cleaned (el_text el) else description a)"
  using assms
  by (auto simp: Article_case_def Article_setattr_def cleaned_def
           split: if_splits option.splits sum.splits)

lemma Article_loop_description:
  "Article_loop a els = Inr a' \<Longrightarrow>
   description a' =
     (case filter (\<lambda>el. tag el = ''description'') els of
        [] \<Rightarrow> description a
      | d # ds \<Rightarrow> cleaned (el_text (last (d # ds))))"
proof (induction els arbitrary: a)
  case Nil
  then show ?case by simp
next
  case (Cons el els)
  from Cons.prems obtain a1 where
    step: "Article_case a el = Inr a1" and rest: "Article_loop a1 els = Inr a'"
    by (auto split: sum.splits)
  note IH = Cons.IH [OF rest]
  note d1 = Article_case_description [OF step]
  show ?case
  proof (cases "filter (\<lambda>el. tag el = ''description'') els")
    case Nil
    with IH d1 show ?thesis by simp
  next
    case (Cons d ds)
    with IH show ?thesis by simp
  qed
qed

text \<open>
  C6, as stated, fails for the absent element: an item without a \<open>description\<close> child
  keeps the default of the dataclass, the empty text, which is the very value of an item
  whose description cleans to nothing, and not the \<open>None\<close> of an element without text.
\<close>

theorem description_absent_element:
  "map_sum id description
     (Article_parse (Element ''item'' None [Element ''title'' (Some ''Hello'') []]))
     = Inr (Some [])
   \<and> map_sum id description
       (Article_parse (Element ''item'' None
          [Element ''description'' (Some ''The post Hello appeared first on Example.'') []]))
     = Inr (Some [])
   \<and> map_sum id description
       (Article_parse (Element ''item'' None [Element ''description'' None []]))
     = Inr None"
  by code_simp

text \<open>
  C6, amended. For every parsed item the description field is decided by the last
  \<open>description\<close> child: if its text is present and not empty, the field holds the
  cleaned text, also when that is empty or only white space (present, not unset); if
  its text is absent or empty, the field is \<open>None\<close> (unset); and if the item has no
  \<open>description\<close> child, the field keeps its default, the empty text (present and empty).
\<close>

theorem Article_parse_description:
  assumes "Article_parse item = Inr a"
  shows "description a =
     (case filter (\<lambda>el. tag el = ''description'') (children item) of
        [] \<Rightarrow> Some []
      | d # ds \<Rightarrow> cleaned (el_text (last (d # ds))))"
  using Article_loop_description [OF assms [unfolded Article_parse_def]]
  by (simp add: Article_init_def split: list.splits)

theorem Article_parse_description_witness:
  "description
     \<lparr>Article.title = Some ''Hello'', link = Some ''http://x/1'',
      description = Some ''Hello world'',
      date = DateTime \<lparr>year = 2024, month = 1, day = 1\<rparr>, shadowed = []\<rparr>
   = cleaned (Some ''Hello world\<newline>The post Hello appeared first on Example.'')"
proof -
  have p: "Article_parse example_item =
     Inr \<lparr>Article.title = Some ''Hello'', link = Some ''http://x/1'',
          description = Some ''Hello world'',
          date = DateTime \<lparr>year = 2024, month = 1, day = 1\<rparr>, shadowed = []\<rparr>"
    by code_simp
  show ?thesis
    using Article_parse_description [OF p] by (simp add: example_item_def)
qed

section \<open>The loop of Feed.parse\<close>

lemma setattr_raises_title: "setattr_raises ''title'' = None" "setattr_raises ''link'' = None"
  by (simp_all add: setattr_raises_def)

text \<open>
  C8. The code breaks the claim on a child tagged \<open>articles\<close>, which is neither an
  item nor tagged \<open>title\<close> or \<open>link\<close>: \<open>hasattr\<close> is true for it, so the list of
  articles, declared \<open>list[Article]\<close>, is replaced by the element's text. An item that
  follows then fails at \<open>feed.articles.append\<close>, and without one \<open>Feed.format\<close> renders
  the characters of the text in place of the articles.
\<close>

theorem Feed_case_articles_tag:
  "Feed_case Feed_init (Element ''articles'' (Some ''x'') [])
     = Inr (Feed_init\<lparr>articles := ArticlesText (Some ''x'')\<rparr>)
   \<and> Feed_init\<lparr>articles := ArticlesText (Some ''x'')\<rparr> \<noteq> Feed_init
   \<and> Feed_loop Feed_init [Element ''articles'' (Some ''x'') [], example_item]
     = Inl AttributeError
   \<and> Feed_call_format (Feed_init\<lparr>articles := ArticlesText (Some ''x'')\<rparr>)
     = Inr (FEED_FMT [] [] ''x'')"
  by code_simp

text \<open>
  On the other tags the loop body does what is expected of it. For every child of the
  channel that is not an item: a child tagged \<open>title\<close> sets the title from the
  element's text, a child tagged \<open>link\<close> sets the link from the element's text, and a
  child whose tag is not the name of an attribute of the feed object (\<open>title\<close>, \<open>link\<close>,
  \<open>articles\<close>, \<open>parse\<close>, \<open>format\<close> or one of \<open>object_attrs\<close>) leaves the feed unchanged.
\<close>

lemma Feed_case_non_item:
  assumes "tag el \<noteq> ''item''"
  shows "(tag el = ''title'' \<longrightarrow> Feed_case feed el = Inr (feed\<lparr>Feed.title := el_text el\<rparr>))
       \<and> (tag el = ''link'' \<longrightarrow> Feed_case feed el = Inr (feed\<lparr>Feed.link := el_text el\<rparr>))
       \<and> (\<not> Feed_hasattr (tag el) \<longrightarrow> Feed_case feed el = Inr feed)"
  using assms
  by (simp add: Feed_case_def Feed_setattr_def Feed_hasattr_def setattr_raises_title)

section \<open>Feed.parse on valid documents\<close>

lemma Article_case_valid:
  assumes "setattr_raises (tag el) = None"
    and "tag el = ''pubDate'' \<longrightarrow>
           (case el_text el of None \<Rightarrow> True | Some s \<Rightarrow> s = [] \<or> \<not> isl (parse_dt s))"
  shows "\<exists>a'. Article_case a el = Inr a'"
  using assms
  by (auto simp: Article_case_def split: option.splits sum.splits)

lemma Article_loop_valid:
  "\<forall>el\<in>set els. setattr_raises (tag el) = None \<and>
       (tag el = ''pubDate'' \<longrightarrow>
          (case el_text el of None \<Rightarrow> True | Some s \<Rightarrow> s = [] \<or> \<not> isl (parse_dt s)))
   \<Longrightarrow> \<exists>a'. Article_loop a els = Inr a'"
proof (induction els arbitrary: a)
  case Nil
  show ?case by simp
next
  case (Cons el els)
  from Cons.prems obtain a1 where "Article_case a el = Inr a1"
    using Article_case_valid [of el a] by auto
  moreover from Cons.IH [of a1] Cons.prems obtain a2 where "Article_loop a1 els = Inr a2"
    by auto
  ultimately show ?case by simp
qed

lemma Article_parse_valid: "valid_item item \<Longrightarrow> \<exists>a. Article_parse item = Inr a"
  unfolding valid_item_def Article_parse_def by (rule Article_loop_valid)

lemma Feed_case_articles:
  assumes "Feed_case feed el = Inr feed'" and "articles feed = ArticleList as0"
    and "tag el \<noteq> ''articles''"
  shows "if tag el = ''item''
         then \<exists>a. Article_parse el = Inr a \<and> articles feed' = ArticleList (as0 @ [a])
         else articles feed' = ArticleList as0"
  using assms
  by (auto simp: Feed_case_def Feed_setattr_def split: if_splits sum.splits option.splits)

lemma Feed_loop_articles:
  "Feed_loop feed els = Inr feed' \<Longrightarrow> articles feed = ArticleList as0 \<Longrightarrow>
   \<forall>el\<in>set els. tag el \<noteq> ''articles'' \<Longrightarrow>
   \<exists>as. articles feed' = ArticleList (as0 @ as) \<and>
        list_all2 (\<lambda>item a. Article_parse item = Inr a) (filter (\<lambda>el. tag el = ''item'') els) as"
proof (induction els arbitrary: feed as0)
  case Nil
  then show ?case by simp
next
  case (Cons el els)
  from Cons.prems(1) obtain feed1 where
    step: "Feed_case feed el = Inr feed1" and rest: "Feed_loop feed1 els = Inr feed'"
    by (auto split: sum.splits)
  from Cons.prems(3) have el: "tag el \<noteq> ''articles''" and els: "\<forall>el\<in>set els. tag el \<noteq> ''articles''"
    by simp_all
  note c = Feed_case_articles [OF step Cons.prems(2) el]
  show ?case
  proof (cases "tag el = ''item''")
    case True
    with c obtain a where a: "Article_parse el = Inr a" "articles feed1 = ArticleList (as0 @ [a])"
      by auto
    from Cons.IH [OF rest a(2) els] obtain as where
      "articles feed' = ArticleList ((as0 @ [a]) @ as)"
      "list_all2 (\<lambda>item a. Article_parse item = Inr a) (filter (\<lambda>el. tag el = ''item'') els) as"
      by blast
    with True a(1) show ?thesis
      by (intro exI [of _ "a # as"]) simp
  next
    case False
    with c have "articles feed1 = ArticleList as0" by simp
    from Cons.IH [OF rest this els] False show ?thesis by simp
  qed
qed

lemma Feed_case_valid:
  assumes "articles feed = ArticleList as0"
    and "if tag el = ''item'' then valid_item el
         else setattr_raises (tag el) = None \<and> tag el \<noteq> ''articles''"
  shows "\<exists>feed' as1. Feed_case feed el = Inr feed' \<and> articles feed' = ArticleList as1"
proof (cases "tag el = ''item''")
  case True
  with assms(2) obtain a where "Article_parse el = Inr a"
    using Article_parse_valid by auto
  with True assms(1) show ?thesis by (simp add: Feed_case_def)
next
  case False
  with assms show ?thesis by (simp add: Feed_case_def Feed_setattr_def)
qed

lemma Feed_loop_valid:
  "articles feed = ArticleList as0 \<Longrightarrow>
   \<forall>el\<in>set els. if tag el = ''item'' then valid_item el
                 else setattr_raises (tag el) = None \<and> tag el \<noteq> ''articles'' \<Longrightarrow>
   \<exists>feed'. Feed_loop feed els = Inr feed'"
proof (induction els arbitrary: feed as0)
  case Nil
  show ?case by simp
next
  case (Cons el els)
  from Cons.prems obtain feed1 as1 where
    step: "Feed_case feed el = Inr feed1" and a1: "articles feed1 = ArticleList as1"
    using Feed_case_valid [of feed as0 el] by auto
  from Cons.IH [OF a1] Cons.prems(2) obtain feed' where "Feed_loop feed1 els = Inr feed'"
    by auto
  with step show ?case by simp
qed

text \<open>
  Where the channel is valid in the sense above, \<open>Feed.parse\<close> returns a feed whose
  \<open>articles\<close> list has as many elements as the channel has \<open>item\<close> children, and the
  article at each position is the one \<open>Article.parse\<close> returns for the item at that
  position.
\<close>

lemma Feed_parse_articles:
  assumes "requests_get env url = Inr resp" and "ok resp"
    and "fromstring env (resp_text resp) = Inr data"
    and "children data = channel # rest"
    and "valid_channel channel"
  shows "\<exists>feed as. fst (Feed_parse env url w) = Inr feed \<and> articles feed = ArticleList as \<and>
           length as = length (items channel) \<and>
           list_all2 (\<lambda>item a. Article_parse item = Inr a) (items channel) as"
proof -
  from assms(5) have v: "\<forall>el\<in>set (children channel). if tag el = ''item'' then valid_item el
                 else setattr_raises (tag el) = None \<and> tag el \<noteq> ''articles''"
    by (simp only: valid_channel_def)
  have i: "articles Feed_init = ArticleList []" by (simp add: Feed_init_def)
  from Feed_loop_valid [OF i v] obtain feed where
    loop: "Feed_loop Feed_init (children channel) = Inr feed" ..
  have na: "\<forall>el\<in>set (children channel). tag el \<noteq> ''articles''"
  proof
    fix el assume "el \<in> set (children channel)"
    with v have "if tag el = ''item'' then valid_item el
                 else setattr_raises (tag el) = None \<and> tag el \<noteq> ''articles''" ..
    then show "tag el \<noteq> ''articles''" by (cases "tag el = ''item''") simp_all
  qed
  from Feed_loop_articles [OF loop i na] obtain as where
    as1: "articles feed = ArticleList ([] @ as)" and
    as2: "list_all2 (\<lambda>item a. Article_parse item = Inr a)
            (filter (\<lambda>el. tag el = ''item'') (children channel)) as"
    by blast
  from as2 have as3: "list_all2 (\<lambda>item a. Article_parse item = Inr a) (items channel) as"
    by (simp only: items_def)
  have "fst (Feed_parse env url w) = Inr feed"
    by (simp add: Feed_parse_def assms(1-4) loop)
  moreover from as1 have "articles feed = ArticleList as" by simp
  moreover from as3 have "length as = length (items channel)"
    by (simp add: list_all2_lengthD)
  ultimately show ?thesis using as3 by blast
qed

lemma Feed_parse_articles_example:
  "\<exists>feed as. fst (Feed_parse (example_env 200 example_rss) ''http://x/feed'' example_world)
                = Inr feed \<and>
     articles feed = ArticleList as \<and> length as = length (items example_channel) \<and>
     list_all2 (\<lambda>item a. Article_parse item = Inr a) (items example_channel) as"
proof -
  have 1: "requests_get (example_env 200 example_rss) ''http://x/feed''
             = Inr \<lparr>status_code = 200, resp_text = ''<rss/>''\<rparr>"
    by (simp add: example_env_def)
  have 2: "ok \<lparr>status_code = 200, resp_text = ''<rss/>''\<rparr>"
    by (simp add: ok_def)
  have 3: "fromstring (example_env 200 example_rss)
             (resp_text \<lparr>status_code = 200, resp_text = ''<rss/>''\<rparr>) = Inr example_rss"
    by (simp add: example_env_def)
  have 4: "children example_rss = example_channel # []"
    by (simp add: example_rss_def)
  have 5: "valid_channel example_channel"
    by code_simp
  show ?thesis
    by (rule Feed_parse_articles [OF 1 2 3 4 5])
qed



text \<open>
  C2. The code breaks the claim on a feed document whose channel has a child tagged
  \<open>articles\<close> behind its item: the channel has one item, \<open>Feed.parse\<close> returns, and
  the \<open>articles\<close> field of the feed it returns is the text \<open>xy\<close> of that child, not a
  list with the one article.
\<close>

theorem Feed_parse_articles_replaced:
  "items articles_channel = [example_item]
   \<and> fst (Feed_parse (example_env 200 articles_rss) ''http://x/feed'' example_world)
     = Inr \<lparr>Feed.title = Some ''Example Feed'', link = Some ''http://x/'',
            articles = ArticlesText (Some ''xy''), shadowed = []\<rparr>"
  by code_simp

section \<open>What the loops of main change\<close>

text \<open>\<open>Feed.parse\<close> prints and writes no file; what it returns does not depend on the world.\<close>

lemma Feed_parse_result_independent:
  "fst (Feed_parse env url w) = fst (Feed_parse env url w')"
  by (simp add: Feed_parse_def split: sum.splits list.splits)

lemma Feed_parse_files: "files (snd (Feed_parse env url w)) = files w"
  by (simp add: Feed_parse_def split: sum.splits list.splits)

lemma feeds_loop_files: "files (snd (feeds_loop env urls feeds w)) = files w"
proof (induction urls arbitrary: feeds w)
  case Nil
  show ?case by simp
next
  case (Cons url urls)
  show ?case
  proof (cases "Feed_parse env url w")
    case (Pair r w1)
    with Feed_parse_files [of env url w] have f: "files w1 = files w" by simp
    show ?thesis
    proof (cases r)
      case (Inl e)
      with Pair f show ?thesis by simp
    next
      case (Inr feed)
      with Pair f Cons.IH show ?thesis by (simp split: sum.splits)
    qed
  qed
qed

lemma categories_loop_files: "files (snd (categories_loop env table categories w)) = files w"
proof (induction table arbitrary: categories w)
  case Nil
  show ?case by simp
next
  case (Cons entry table)
  obtain category urls where entry: "entry = (category, urls)" by (cases entry)
  show ?case
  proof (cases "feeds_loop env urls [] w")
    case (Pair r w1)
    with feeds_loop_files [of env urls "[]" w] have f: "files w1 = files w" by simp
    show ?thesis
    proof (cases r)
      case (Inl e)
      with Pair f entry show ?thesis by simp
    next
      case (Inr feeds)
      with Pair f entry Cons.IH show ?thesis by simp
    qed
  qed
qed

section \<open>An exception ends the run\<close>

text \<open>
  Nothing in the program catches an exception: when \<open>Feed.parse\<close> raises for one
  configured URL, \<open>main\<close> ends with an exception before \<open>write_text\<close> is reached.
\<close>

lemma feeds_loop_raises:
  "url \<in> set urls \<Longrightarrow> isl (fst (Feed_parse env url w0)) \<Longrightarrow>
   isl (fst (feeds_loop env urls feeds w))"
proof (induction urls arbitrary: feeds w)
  case Nil
  then show ?case by simp
next
  case (Cons u urls)
  show ?case
  proof (cases "Feed_parse env u w")
    case (Pair r w1)
    show ?thesis
    proof (cases r)
      case (Inl e)
      with Pair show ?thesis by simp
    next
      case (Inr feed)
      with Pair have ok: "fst (Feed_parse env u w) = Inr feed" by simp
      have "u \<noteq> url"
      proof
        assume "u = url"
        with ok Feed_parse_result_independent [of env url w w0] Cons.prems(2)
        show False by simp
      qed
      with Cons.prems(1) have "url \<in> set urls" by simp
      from Cons.IH [OF this Cons.prems(2)] Pair Inr show ?thesis
        by (simp split: sum.splits)
    qed
  qed
qed

lemma categories_loop_raises:
  "(category, urls) \<in> set table \<Longrightarrow> url \<in> set urls \<Longrightarrow>
   isl (fst (Feed_parse env url w0)) \<Longrightarrow>
   isl (fst (categories_loop env table categories w))"
proof (induction table arbitrary: categories w)
  case Nil
  then show ?case by simp
next
  case (Cons entry table)
  obtain c us where entry: "entry = (c, us)" by (cases entry)
  show ?case
  proof (cases "feeds_loop env us [] w")
    case (Pair r w1)
    show ?thesis
    proof (cases r)
      case (Inl e)
      with Pair entry show ?thesis by simp
    next
      case (Inr feeds)
      with Pair have ok: "\<not> isl (fst (feeds_loop env us [] w))" by simp
      have "(category, urls) \<noteq> (c, us)"
      proof
        assume "(category, urls) = (c, us)"
        with Cons.prems(2) have "url \<in> set us" by simp
        from feeds_loop_raises [OF this Cons.prems(3)] ok show False by blast
      qed
      with Cons.prems(1) entry have "(category, urls) \<in> set table" by auto
      from Cons.IH [OF this Cons.prems(2,3)] Pair Inr entry show ?thesis by simp
    qed
  qed
qed

lemma main_raises:
  assumes "tomllib_load env (config a) = Inr table"
    and "isl (fst (categories_loop env table [] w))"
  shows "(\<exists>e. fst (main env a w) = Some e) \<and> files (snd (main env a w)) = files w"
proof (cases "categories_loop env table [] w")
  case (Pair r w1)
  with assms(2) obtain e where r: "r = Inl e" by (cases r) simp_all
  from categories_loop_files [of env table "[]" w] Pair have "files w1 = files w" by simp
  with assms(1) Pair r show ?thesis by (simp add: main_def)
qed

lemma main_url_raises:
  assumes "tomllib_load env (config a) = Inr table"
    and "(category, urls) \<in> set table" and "url \<in> set urls"
    and "isl (fst (Feed_parse env url w))"
  shows "(\<exists>e. fst (main env a w) = Some e) \<and> files (snd (main env a w)) = files w"
  by (rule main_raises [OF assms(1) categories_loop_raises [OF assms(2,3,4)]])

text \<open>
  C1, as stated, fails: the status 300 is not a 2xx status, yet \<open>resp.ok\<close> is true for
  it; where the body of such an answer is a feed document, \<open>Feed.parse\<close> returns and
  \<open>main\<close> writes \<open>index.html\<close>.
\<close>

theorem redirect_status_is_ok:
  "requests_get (example_env 300 example_rss) ''http://x/feed''
     = Inr \<lparr>status_code = 300, resp_text = ''<rss/>''\<rparr>
   \<and> \<not> isl (fst (Feed_parse (example_env 300 example_rss) ''http://x/feed'' example_world))
   \<and> fst (main (example_env 300 example_rss) example_args example_world) = None
   \<and> files example_world [''out'', ''index.html''] = None
   \<and> files (snd (main (example_env 300 example_rss) example_args example_world))
        [''out'', ''index.html''] \<noteq> None"
  by code_simp

text \<open>
  C1, amended. For every configured URL whose GET returns a status for which \<open>resp.ok\<close>
  is false, that is a status from 400 to 599, \<open>Feed.parse\<close> raises
  \<open>RuntimeError("Failed to fetch: <url>")\<close> and leaves the world as it was, \<open>main\<close>
  ends with an exception, and the files are those from before the run.
\<close>

theorem fetch_failure_aborts:
  assumes "tomllib_load env (config a) = Inr table"
    and "(category, urls) \<in> set table" and "url \<in> set urls"
    and "requests_get env url = Inr resp"
    and "400 \<le> status_code resp" and "status_code resp < 600"
  shows "Feed_parse env url w = (Inl (RuntimeError (''Failed to fetch: '' @ url)), w)
       \<and> (\<exists>e. fst (main env a w) = Some e)
       \<and> files (snd (main env a w)) = files w"
proof -
  from assms(4-6) have p: "Feed_parse env url w = (Inl (RuntimeError (''Failed to fetch: '' @ url)), w)"
    by (simp add: Feed_parse_def ok_def)
  then have "isl (fst (Feed_parse env url w))" by simp
  from main_url_raises [OF assms(1-3) this] p show ?thesis by simp
qed

theorem fetch_failure_aborts_witness:
  "Feed_parse (example_env 404 example_rss) ''http://x/feed'' example_world
     = (Inl (RuntimeError (''Failed to fetch: '' @ ''http://x/feed'')), example_world)
   \<and> (\<exists>e. fst (main (example_env 404 example_rss) example_args example_world) = Some e)
   \<and> files (snd (main (example_env 404 example_rss) example_args example_world))
       = files example_world"
proof -
  have 1: "tomllib_load (example_env 404 example_rss) (config example_args)
             = Inr [(''Tech'', [''http://x/feed''])]"
    by (simp add: example_env_def)
  have 2: "(''Tech'', [''http://x/feed'']) \<in> set [(''Tech'', [''http://x/feed''])]"
    by simp
  have 3: "''http://x/feed'' \<in> set [''http://x/feed'']"
    by simp
  have 4: "requests_get (example_env 404 example_rss) ''http://x/feed''
             = Inr \<lparr>status_code = 404, resp_text = ''<rss/>''\<rparr>"
    by (simp add: example_env_def)
  have 5: "400 \<le> status_code \<lparr>status_code = 404, resp_text = ''<rss/>''\<rparr>"
    and 6: "status_code \<lparr>status_code = 404, resp_text = ''<rss/>''\<rparr> < 600"
    by simp_all
  show ?thesis
    by (rule fetch_failure_aborts [OF 1 2 3 4 5 6])
qed

section \<open>Malformed dates\<close>

lemma strptime_dbY_raises: "isl (strptime_dbY s) \<Longrightarrow> strptime_dbY s = Inl ValueError"
  by (auto simp: strptime_dbY_def split: option.splits prod.splits if_splits)

lemma Article_loop_raises:
  "el \<in> set els \<Longrightarrow> \<forall>article. isl (Article_case article el) \<Longrightarrow>
   isl (Article_loop a els)"
proof (induction els arbitrary: a)
  case Nil
  then show ?case by simp
next
  case (Cons x els)
  show ?case
  proof (cases "Article_case a x")
    case (Inl e)
    then show ?thesis by simp
  next
    case (Inr a1)
    have "x \<noteq> el"
    proof
      assume "x = el"
      with Cons.prems(2) have "isl (Article_case a x)" by simp
      with Inr show False by simp
    qed
    with Cons.prems(1) have "el \<in> set els" by simp
    from Cons.IH [OF this Cons.prems(2)] Inr show ?thesis by simp
  qed
qed

lemma Feed_case_item_raises:
  assumes "tag item = ''item''" and "isl (Article_parse item)"
  shows "isl (Feed_case feed item)"
  using assms
  by (cases "articles feed"; cases "Article_parse item") (simp_all add: Feed_case_def)

lemma Feed_loop_raises:
  "el \<in> set els \<Longrightarrow> \<forall>feed. isl (Feed_case feed el) \<Longrightarrow> isl (Feed_loop feed els)"
proof (induction els arbitrary: feed)
  case Nil
  then show ?case by simp
next
  case (Cons x els)
  show ?case
  proof (cases "Feed_case feed x")
    case (Inl e)
    then show ?thesis by simp
  next
    case (Inr feed1)
    have "x \<noteq> el"
    proof
      assume "x = el"
      with Cons.prems(2) have "isl (Feed_case feed x)" by simp
      with Inr show False by simp
    qed
    with Cons.prems(1) have "el \<in> set els" by simp
    from Cons.IH [OF this Cons.prems(2)] Inr show ?thesis by simp
  qed
qed

lemma Feed_parse_raises:
  assumes "requests_get env url = Inr resp"
    and "fromstring env (resp_text resp) = Inr data"
    and "children data = channel # rest"
    and "isl (Feed_loop Feed_init (children channel))"
  shows "isl (fst (Feed_parse env url w))"
proof (cases "Feed_loop Feed_init (children channel)")
  case (Inl e)
  with assms(1-3) show ?thesis by (simp add: Feed_parse_def)
next
  case (Inr feed)
  with assms(4) show ?thesis by simp
qed

text \<open>
  C10. For every item with a \<open>pubDate\<close> child whose text is not empty and whose second
  to fourth space-separated pieces \<open>strptime\<close> does not read as \<open>%d %b %Y\<close>: the date
  parser raises \<open>ValueError\<close>, the \<open>pubDate\<close> case lets it through for every
  article, \<open>Article.parse\<close> raises on the item, \<open>Feed.parse\<close> raises on every URL
  whose channel holds the item, and \<open>main\<close> ends with an exception for every
  configuration that lists the URL, with no file written.
\<close>

theorem malformed_date_aborts:
  assumes "el \<in> set (children item)" and "tag el = ''pubDate''"
    and "el_text el = Some s" and "s \<noteq> []"
    and "isl (strptime_dbY (join '' '' (take 3 (drop 1 (split_space s)))))"
    and "tag item = ''item''" and "item \<in> set (children channel)"
    and "requests_get env url = Inr resp"
    and "fromstring env (resp_text resp) = Inr data"
    and "children data = channel # rest"
    and "tomllib_load env (config a) = Inr table"
    and "(category, urls) \<in> set table" and "url \<in> set urls"
  shows "parse_dt s = Inl ValueError
       \<and> (\<forall>article. Article_case article el = Inl ValueError)
       \<and> (\<exists>e. Article_parse item = Inl e)
       \<and> (\<exists>e. fst (Feed_parse env url w) = Inl e)
       \<and> (\<exists>e. fst (main env a w) = Some e)
       \<and> files (snd (main env a w)) = files w"
proof -
  from assms(5) have dt: "parse_dt s = Inl ValueError"
    unfolding parse_dt_def by (rule strptime_dbY_raises)
  with assms(2-4) have c: "\<forall>article. Article_case article el = Inl ValueError"
    by (simp add: Article_case_def)
  then have "\<forall>article. isl (Article_case article el)" by simp
  from Article_loop_raises [OF assms(1) this]
  have ap: "isl (Article_parse item)" by (simp add: Article_parse_def)
  from Feed_case_item_raises [OF assms(6) ap]
  have "\<forall>feed. isl (Feed_case feed item)" by simp
  from Feed_loop_raises [OF assms(7) this]
  have "isl (Feed_loop Feed_init (children channel))" .
  from Feed_parse_raises [OF assms(8-10) this]
  have fp: "isl (fst (Feed_parse env url w))" .
  note m = main_url_raises [OF assms(11-13) fp]
  from ap obtain e1 where "Article_parse item = Inl e1" by (cases "Article_parse item") simp_all
  moreover from fp obtain e2 where "fst (Feed_parse env url w) = Inl e2"
    by (cases "fst (Feed_parse env url w)") simp_all
  ultimately show ?thesis using dt c m by blast
qed

theorem malformed_date_aborts_witness:
  "parse_dt ''2024-01-01T00:00:00Z'' = Inl ValueError
   \<and> (\<forall>article. Article_case article (Element ''pubDate'' (Some ''2024-01-01T00:00:00Z'') [])
                   = Inl ValueError)
   \<and> (\<exists>e. Article_parse bad_date_item = Inl e)
   \<and> (\<exists>e. fst (Feed_parse (example_env 200 bad_date_rss) ''http://x/feed'' example_world) = Inl e)
   \<and> (\<exists>e. fst (main (example_env 200 bad_date_rss) example_args example_world) = Some e)
   \<and> files (snd (main (example_env 200 bad_date_rss) example_args example_world))
       = files example_world"
proof -
  have 1: "Element ''pubDate'' (Some ''2024-01-01T00:00:00Z'') [] \<in> set (children bad_date_item)"
    by (simp add: bad_date_item_def)
  have 2: "tag (Element ''pubDate'' (Some ''2024-01-01T00:00:00Z'') []) = ''pubDate''"
    and 3: "el_text (Element ''pubDate'' (Some ''2024-01-01T00:00:00Z'') [])
              = Some ''2024-01-01T00:00:00Z''"
    and 4: "''2024-01-01T00:00:00Z'' \<noteq> []"
    by simp_all
  have 5: "isl (strptime_dbY (join '' '' (take 3 (drop 1 (split_space ''2024-01-01T00:00:00Z'')))))"
    by code_simp
  have 6: "tag bad_date_item = ''item''"
    by (simp add: bad_date_item_def)
  have 7: "bad_date_item \<in> set (children (Element ''channel'' None [bad_date_item]))"
    by simp
  have 8: "requests_get (example_env 200 bad_date_rss) ''http://x/feed''
             = Inr \<lparr>status_code = 200, resp_text = ''<rss/>''\<rparr>"
    by (simp add: example_env_def)
  have 9: "fromstring (example_env 200 bad_date_rss)
             (resp_text \<lparr>status_code = 200, resp_text = ''<rss/>''\<rparr>) = Inr bad_date_rss"
    by (simp add: example_env_def)
  have 10: "children bad_date_rss = Element ''channel'' None [bad_date_item] # []"
    by (simp add: bad_date_rss_def)
  have 11: "tomllib_load (example_env 200 bad_date_rss) (config example_args)
             = Inr [(''Tech'', [''http://x/feed''])]"
    by (simp add: example_env_def)
  have 12: "(''Tech'', [''http://x/feed'']) \<in> set [(''Tech'', [''http://x/feed''])]"
    and 13: "''http://x/feed'' \<in> set [''http://x/feed'']"
    by simp_all
  show ?thesis
    by (rule malformed_date_aborts [OF 1 2 3 4 5 6 7 8 9 10 11 12 13])
qed

section \<open>Order of the final document\<close>

lemma collect_map:
  "list_all2 (\<lambda>x y. f x = Inr y) xs ys \<Longrightarrow> collect (map f xs) = Inr ys"
  by (induction xs ys rule: list_all2_induct) simp_all

lemma format_articles_all2:
  "format_articles as = Inr ss \<Longrightarrow> list_all2 (\<lambda>a s. Article_call_format a = Inr s) as ss"
proof (induction as arbitrary: ss)
  case Nil
  then show ?case by simp
next
  case (Cons a as)
  then show ?case by (auto split: sum.splits)
qed

lemma Feed_parse_Inr:
  assumes "fst (Feed_parse env url w) = Inr feed"
  shows "\<exists>resp data channel rest.
           requests_get env url = Inr resp \<and> fromstring env (resp_text resp) = Inr data \<and>
           children data = channel # rest \<and> Feed_loop Feed_init (children channel) = Inr feed"
  using assms
  by (auto simp: Feed_parse_def split: sum.splits list.splits if_splits)

text \<open>What one pass of the inner loop appends is the fragment of the URL.\<close>

lemma spec_feed_fragment_of_parse:
  assumes "fst (Feed_parse env url w) = Inr feed" and "Feed_call_format feed = Inr fb"
    and "no_articles_tag env url"
  shows "spec_feed_fragment env url = Inr fb"
proof -
  from Feed_parse_Inr [OF assms(1)] obtain resp data channel rest where
    r: "requests_get env url = Inr resp" and d: "fromstring env (resp_text resp) = Inr data" and
    c: "children data = channel # rest" and l: "Feed_loop Feed_init (children channel) = Inr feed"
    by blast
  from assms(3) r d c have na: "\<forall>el\<in>set (children channel). tag el \<noteq> ''articles''"
    by (simp add: no_articles_tag_def)
  have i: "articles Feed_init = ArticleList []" by (simp add: Feed_init_def)
  from Feed_loop_articles [OF l i na] obtain as where
    as1: "articles feed = ArticleList as" and
    as2: "list_all2 (\<lambda>item a. Article_parse item = Inr a) (items channel) as"
    by (auto simp: items_def)
  from assms(2) have ff: "Feed_format feed = Inr fb"
    by (simp add: Feed_call_format_def split: if_splits)
  with as1 obtain ss where ss: "format_articles as = Inr ss"
    and fb: "fb = FEED_FMT (str (Feed.link feed)) (str (Feed.title feed)) (join ''<br/>'' ss)"
    by (auto simp: Feed_format_def split: sum.splits if_splits)
  from format_articles_all2 [OF ss]
  have "list_all2 (\<lambda>a s. Article_call_format a = Inr s) as ss" .
  with as2 have "list_all2 (\<lambda>item s. spec_article_fragment item = Inr s) (items channel) ss"
    by (rule list_all2_trans [rotated]) (simp add: spec_article_fragment_def)
  then have "collect (map spec_article_fragment (items channel)) = Inr ss"
    by (rule collect_map)
  with r d c l fb show ?thesis
    by (simp add: spec_feed_fragment_def)
qed

lemma feeds_loop_fragments:
  "fst (feeds_loop env urls feeds w) = Inr fbs \<Longrightarrow> \<forall>url\<in>set urls. no_articles_tag env url \<Longrightarrow>
   \<exists>new. fbs = feeds @ new \<and> list_all2 (\<lambda>url fb. spec_feed_fragment env url = Inr fb) urls new"
proof (induction urls arbitrary: feeds w)
  case Nil
  then show ?case by simp
next
  case (Cons url urls)
  obtain r w1 where p: "Feed_parse env url w = (r, w1)" by (cases "Feed_parse env url w")
  with Cons.prems(1) obtain feed where r: "r = Inr feed" by (cases r) simp_all
  from p r Cons.prems(1) obtain fb where fb: "Feed_call_format feed = Inr fb"
    by (cases "Feed_call_format feed") simp_all
  from p r have "fst (Feed_parse env url w) = Inr feed" by simp
  from spec_feed_fragment_of_parse [OF this fb] Cons.prems(2)
  have frag: "spec_feed_fragment env url = Inr fb" by simp
  from p r fb Cons.prems(1) have "fst (feeds_loop env urls (feeds @ [fb]) w1) = Inr fbs"
    by simp
  from Cons.IH [OF this] Cons.prems(2) obtain new where
    "fbs = (feeds @ [fb]) @ new"
    "list_all2 (\<lambda>url fb. spec_feed_fragment env url = Inr fb) urls new"
    by auto
  with frag show ?case by (intro exI [of _ "fb # new"]) simp
qed

lemma categories_loop_fragments:
  "fst (categories_loop env table categories w) = Inr cbs \<Longrightarrow> articles_untouched env table \<Longrightarrow>
   \<exists>new. cbs = categories @ new \<and>
         list_all2 (\<lambda>entry cb. spec_category_fragment env entry = Inr cb) table new"
proof (induction table arbitrary: categories w)
  case Nil
  then show ?case by simp
next
  case (Cons entry table)
  obtain category urls where entry: "entry = (category, urls)" by (cases entry)
  obtain r w1 where p: "feeds_loop env urls [] w = (r, w1)" by (cases "feeds_loop env urls [] w")
  with Cons.prems(1) entry obtain fbs where r: "r = Inr fbs" by (cases r) simp_all
  from Cons.prems(2) entry have u: "\<forall>url\<in>set urls. no_articles_tag env url"
    and t: "articles_untouched env table"
    by (simp_all add: articles_untouched_def)
  from p r have "fst (feeds_loop env urls [] w) = Inr fbs" by simp
  from feeds_loop_fragments [OF this u]
  have "list_all2 (\<lambda>url fb. spec_feed_fragment env url = Inr fb) urls fbs"
    by simp
  then have "collect (map (spec_feed_fragment env) urls) = Inr fbs"
    by (rule collect_map)
  then have frag: "spec_category_fragment env entry
                     = Inr (CATEGORY_FMT category (join [CHR 0x0A] fbs))"
    by (simp add: spec_category_fragment_def entry)
  from p r entry Cons.prems(1)
  have "fst (categories_loop env table
           (categories @ [CATEGORY_FMT category (join [CHR 0x0A] fbs)]) w1) = Inr cbs"
    by simp
  from Cons.IH [OF this t] obtain new where
    "cbs = (categories @ [CATEGORY_FMT category (join [CHR 0x0A] fbs)]) @ new"
    "list_all2 (\<lambda>entry cb. spec_category_fragment env entry = Inr cb) table new"
    by auto
  with frag show ?case
    by (intro exI [of _ "CATEGORY_FMT category (join [CHR 0x0A] fbs) # new"]) simp
qed

text \<open>
  For every configuration and every run of \<open>main\<close> that ends without an exception,
  where no fetched channel has a child tagged \<open>articles\<close>: \<open>index.html\<close> holds the
  document of the specification, that is the page template around one fragment per
  category in the order of the configuration, each holding one feed fragment per URL in
  the order of the category's URL list, each holding one article fragment per item in
  the order of the items of the feed document.
\<close>

lemma main_nesting_order:
  assumes "fst (main env a w) = None"
    and "tomllib_load env (config a) = Inr table"
    and "articles_untouched env table"
  shows "\<exists>doc. spec_document env table = Inr doc \<and>
           files (snd (main env a w)) (output_dir a @ [''index.html'']) = Some doc"
proof -
  obtain r w1 where p: "categories_loop env table [] w = (r, w1)"
    by (cases "categories_loop env table [] w")
  from assms(1,2) p obtain cbs where r: "r = Inr cbs"
    by (cases r) (simp_all add: main_def split: if_splits)
  from p r have "fst (categories_loop env table [] w) = Inr cbs" by simp
  from categories_loop_fragments [OF this assms(3)]
  have "list_all2 (\<lambda>entry cb. spec_category_fragment env entry = Inr cb) table cbs" by simp
  then have "collect (map (spec_category_fragment env) table) = Inr cbs"
    by (rule collect_map)
  then have doc: "spec_document env table = Inr (HTML_FMT (join [CHR 0x0A] cbs))"
    by (simp add: spec_document_def)
  from assms(1,2) p r
  have "files (snd (main env a w)) (output_dir a @ [''index.html''])
          = Some (HTML_FMT (join [CHR 0x0A] cbs))"
    by (auto simp: main_def Let_def split: if_splits option.splits)
  with doc show ?thesis by blast
qed

lemma main_nesting_order_example:
  "map_option Inr
     (files (snd (main (example_env 200 example_rss) example_args example_world))
        (output_dir example_args @ [''index.html'']))
   = Some (spec_document (example_env 200 example_rss) [(''Tech'', [''http://x/feed''])])"
proof -
  have 1: "fst (main (example_env 200 example_rss) example_args example_world) = None"
    by code_simp
  have 2: "tomllib_load (example_env 200 example_rss) (config example_args)
             = Inr [(''Tech'', [''http://x/feed''])]"
    by (simp add: example_env_def)
  have 3: "articles_untouched (example_env 200 example_rss) [(''Tech'', [''http://x/feed''])]"
    by code_simp
  from main_nesting_order [OF 1 2 3] obtain doc where
    "spec_document (example_env 200 example_rss) [(''Tech'', [''http://x/feed''])] = Inr doc"
    "files (snd (main (example_env 200 example_rss) example_args example_world))
       (output_dir example_args @ [''index.html'']) = Some doc"
    by blast
  then show ?thesis by simp
qed

text \<open>
  C9. The code breaks the claim on a feed document whose channel has a child tagged
  \<open>articles\<close> behind its item: the run ends without an exception, the document of the
  specification has the fragment of the item inside the feed fragment, and the
  \<open>index.html\<close> that \<open>main\<close> writes has the characters of the child's text there
  instead, joined by \<open><br/>\<close>.
\<close>

theorem main_articles_replaced:
  "fst (main (example_env 200 articles_rss) example_args example_world) = None
   \<and> spec_document (example_env 200 articles_rss) [(''Tech'', [''http://x/feed''])]
     = Inr (HTML_FMT (CATEGORY_FMT ''Tech''
              (FEED_FMT ''http://x/'' ''Example Feed''
                 (ARTICLE_FMT ''01/01/24'' ''http://x/1'' ''Hello'' ''Hello world''))))
   \<and> files (snd (main (example_env 200 articles_rss) example_args example_world))
       [''out'', ''index.html'']
     = Some (HTML_FMT (CATEGORY_FMT ''Tech''
               (FEED_FMT ''http://x/'' ''Example Feed'' ''x<br/>y'')))"
  by code_simp

end
